theory Spec2Isabelle
  imports Complex_Main "HOL-Library.Log_Nat"
begin

section \<open>Load generator configuration (package loadgencfg)\<close>

text \<open>
  A shallow embedding of \<^verbatim>\<open>internal/loadgen/config/config.go\<close>: the rate flag
  (\<^verbatim>\<open>RateFlag.Set\<close>, \<^verbatim>\<open>RateFlag.String\<close>), the header flag, and the seeding of
  flags from the environment (\<^verbatim>\<open>setFlagsFromEnv\<close>, \<^verbatim>\<open>getEnvOrDefault\<close>).

  Go strings are byte sequences, so a string is a \<^typ>\<open>char list\<close>. Go's \<^verbatim>\<open>int\<close>
  is taken to be 64 bits wide, and \<^verbatim>\<open>time.Duration\<close> is an \<^verbatim>\<open>int64\<close> count of
  nanoseconds; both are modelled as \<^typ>\<open>int\<close>, with every range check of the
  library written out, and unsigned 64-bit additions reduced modulo \<open>2^64\<close>.

  The functions of Go's standard library that the file calls (\<^verbatim>\<open>strings.Cut\<close>,
  \<^verbatim>\<open>strconv.Atoi\<close>, \<^verbatim>\<open>strconv.ParseBool\<close>, \<^verbatim>\<open>time.ParseDuration\<close>,
  \<^verbatim>\<open>Duration.String\<close>, the \<^verbatim>\<open>%d\<close> verb) are embedded after the library's
  own code. \<^verbatim>\<open>url.Parse\<close> is a parameter of the embedding.
\<close>

subsection \<open>Bytes and decimal digits\<close>

definition isDigit :: "char \<Rightarrow> bool" where
  \<comment> \<open>\<^verbatim>\<open>'0' <= c && c <= '9'\<close>\<close>
  "isDigit c = (48 \<le> (of_char c :: nat) \<and> (of_char c :: nat) \<le> 57)"

definition digitVal :: "char \<Rightarrow> nat" where
  \<comment> \<open>\<^verbatim>\<open>c - '0'\<close>, used on digits only\<close>
  "digitVal c = (of_char c :: nat) - 48"

definition digitChar :: "nat \<Rightarrow> char" where
  \<comment> \<open>\<^verbatim>\<open>byte(v%10) + '0'\<close>\<close>
  "digitChar n = char_of (48 + n)"

subsection \<open>\<^verbatim>\<open>strings.Cut\<close> with a one-byte separator\<close>

text \<open>
  \<^verbatim>\<open>if i := Index(s, sep); i >= 0 { return s[:i], s[i+len(sep):], true }\<close>
  \<^verbatim>\<open>return s, "", false\<close>
\<close>

definition Cut :: "string \<Rightarrow> char \<Rightarrow> string \<times> string \<times> bool" where
  "Cut s sep =
     (if sep \<in> set s
      then (takeWhile (\<lambda>c. c \<noteq> sep) s, tl (dropWhile (\<lambda>c. c \<noteq> sep) s), True)
      else (s, [], False))"

subsection \<open>\<^verbatim>\<open>strconv.Atoi\<close> (64-bit \<^verbatim>\<open>int\<close>)\<close>

datatype num_error = ErrSyntax | ErrRange

text \<open>The fast path: at most 18 bytes, so the value cannot overflow.\<close>

fun atoi_digits :: "nat \<Rightarrow> string \<Rightarrow> nat option" where
  "atoi_digits n [] = Some n"
| "atoi_digits n (ch # cs) =
     (if \<not> isDigit ch then None else atoi_digits (n * 10 + digitVal ch) cs)"

definition atoi_fast :: "string \<Rightarrow> num_error + int" where
  "atoi_fast s0 =
     (let s = (if hd s0 = CHR ''-'' \<or> hd s0 = CHR ''+'' then tl s0 else s0)
      in if length s < 1 then Inl ErrSyntax
         else (case atoi_digits 0 s of
                 None \<Rightarrow> Inl ErrSyntax
               | Some n \<Rightarrow> Inr (if hd s0 = CHR ''-'' then - int n else int n)))"

text \<open>
  The slow path, \<^verbatim>\<open>ParseInt(s, 10, 0)\<close> over \<^verbatim>\<open>ParseUint\<close>. In base 10 every
  byte that is not a decimal digit is a syntax error; \<^verbatim>\<open>cutoff\<close> is
  \<^verbatim>\<open>maxUint64/10 + 1\<close>. On overflow \<^verbatim>\<open>ParseUint\<close> returns \<^verbatim>\<open>maxVal\<close> with a
  range error, and \<^verbatim>\<open>ParseInt\<close> goes on to its own range check with that value.
\<close>

fun ParseUint_loop :: "nat \<Rightarrow> string \<Rightarrow> num_error + nat" where
  "ParseUint_loop n [] = Inr n"
| "ParseUint_loop n (c # cs) =
     (if \<not> isDigit c then Inl ErrSyntax
      else if n \<ge> (2 ^ 64 - 1) div 10 + 1 then Inl ErrRange
      else if n * 10 + digitVal c > 2 ^ 64 - 1 then Inl ErrRange
      else ParseUint_loop (n * 10 + digitVal c) cs)"

definition ParseUint :: "string \<Rightarrow> num_error + nat" where
  "ParseUint s = (if s = [] then Inl ErrSyntax else ParseUint_loop 0 s)"

definition ParseInt :: "string \<Rightarrow> num_error + int" where
  "ParseInt s0 =
     (if s0 = [] then Inl ErrSyntax
      else
        let neg = (hd s0 = CHR ''-'');
            s = (if hd s0 = CHR ''+'' \<or> hd s0 = CHR ''-'' then tl s0 else s0)
        in (case ParseUint s of
              Inl ErrSyntax \<Rightarrow> Inl ErrSyntax
            | r \<Rightarrow>
               (let un = (case r of Inr u \<Rightarrow> u | Inl _ \<Rightarrow> 2 ^ 64 - 1) in
                if \<not> neg \<and> un \<ge> 2 ^ 63 then Inl ErrRange
                else if neg \<and> un > 2 ^ 63 then Inl ErrRange
                else Inr (if neg then - int un else int un))))"

definition Atoi :: "string \<Rightarrow> num_error + int" where
  "Atoi s = (if 0 < length s \<and> length s < 19 then atoi_fast s else ParseInt s)"

subsection \<open>\<^verbatim>\<open>float64\<close> arithmetic on non-negative values\<close>

text \<open>
  \<^verbatim>\<open>time.ParseDuration\<close> computes the fractional part of a number in \<^verbatim>\<open>float64\<close>.
  A finite non-negative \<^verbatim>\<open>float64\<close> is represented by the rational it denotes;
  \<open>f64_round\<close> rounds a rational to the nearest number with a 53-bit significand,
  ties to even (the values that occur lie far inside the normal range).
\<close>

definition ilog2 :: "rat \<Rightarrow> int" where
  \<comment> \<open>\<open>\<lfloor>log\<^sub>2 x\<rfloor>\<close> for \<open>x > 0\<close>\<close>
  "ilog2 x =
     (let (a, b) = quotient_of x; e0 = bitlen a - bitlen b
      in if 2 powi e0 \<le> x then e0 else e0 - 1)"

definition f64_round :: "rat \<Rightarrow> rat" where
  "f64_round x =
     (if x \<le> 0 then 0
      else
        let ulp = 2 powi (ilog2 x - 52);
            m = x / ulp;
            n = \<lfloor>m\<rfloor>;
            r = m - of_int n;
            n' = (if r < 1 / 2 then n
                  else if r > 1 / 2 then n + 1
                  else if even n then n else n + 1)
        in of_int n' * ulp)"

definition f64_of_nat :: "nat \<Rightarrow> rat" where
  "f64_of_nat n = f64_round (of_nat n)"

definition f64_mul :: "rat \<Rightarrow> rat \<Rightarrow> rat" where
  "f64_mul a b = f64_round (a * b)"

definition f64_div :: "rat \<Rightarrow> rat \<Rightarrow> rat" where
  "f64_div a b = f64_round (a / b)"

definition f64_to_uint64 :: "rat \<Rightarrow> nat" where
  \<comment> \<open>the conversion \<^verbatim>\<open>uint64(x)\<close> truncates\<close>
  "f64_to_uint64 x = nat \<lfloor>x\<rfloor>"

subsection \<open>\<^verbatim>\<open>time.ParseDuration\<close>\<close>

datatype dur_error =
    InvalidDuration string        \<comment> \<open>\<^verbatim>\<open>time: invalid duration "orig"\<close>\<close>
  | MissingUnit string            \<comment> \<open>\<^verbatim>\<open>time: missing unit in duration "orig"\<close>\<close>
  | UnknownUnit string string     \<comment> \<open>\<^verbatim>\<open>time: unknown unit "u" in duration "orig"\<close>\<close>

text \<open>\<^verbatim>\<open>leadingInt\<close>: the leading \<^verbatim>\<open>[0-9]*\<close>; \<open>None\<close> is \<^verbatim>\<open>errLeadingInt\<close>.\<close>

fun leadingInt_loop :: "nat \<Rightarrow> string \<Rightarrow> (nat \<times> string) option" where
  "leadingInt_loop x [] = Some (x, [])"
| "leadingInt_loop x (c # cs) =
     (if \<not> isDigit c then Some (x, c # cs)
      else if x > 2 ^ 63 div 10 then None
      else if x * 10 + digitVal c > 2 ^ 63 then None
      else leadingInt_loop (x * 10 + digitVal c) cs)"

definition leadingInt :: "string \<Rightarrow> (nat \<times> string) option" where
  "leadingInt s = leadingInt_loop 0 s"

text \<open>
  \<^verbatim>\<open>leadingFraction\<close>: the leading \<^verbatim>\<open>[0-9]*\<close> after the period. It never fails:
  once the value would overflow it stops accumulating and skips the other digits.
\<close>

fun leadingFraction_loop :: "nat \<Rightarrow> rat \<Rightarrow> bool \<Rightarrow> string \<Rightarrow> nat \<times> rat \<times> string" where
  "leadingFraction_loop x scale overflow [] = (x, scale, [])"
| "leadingFraction_loop x scale overflow (c # cs) =
     (if \<not> isDigit c then (x, scale, c # cs)
      else if overflow then leadingFraction_loop x scale overflow cs
      else if x > (2 ^ 63 - 1) div 10 then leadingFraction_loop x scale True cs
      else if x * 10 + digitVal c > 2 ^ 63 then leadingFraction_loop x scale True cs
      else leadingFraction_loop (x * 10 + digitVal c) (f64_mul scale 10) overflow cs)"

definition leadingFraction :: "string \<Rightarrow> nat \<times> rat \<times> string" where
  "leadingFraction s = leadingFraction_loop 0 1 False s"

definition unitMap :: "string \<Rightarrow> nat option" where
  \<comment> \<open>the two spellings of the micro sign are U+00B5 and U+03BC, in UTF-8\<close>
  "unitMap u =
     (if u = ''ns'' then Some 1
      else if u = ''us'' then Some 1000
      else if u = [CHR 0xC2, CHR 0xB5, CHR ''s''] then Some 1000
      else if u = [CHR 0xCE, CHR 0xBC, CHR ''s''] then Some 1000
      else if u = ''ms'' then Some 1000000
      else if u = ''s'' then Some 1000000000
      else if u = ''m'' then Some 60000000000
      else if u = ''h'' then Some 3600000000000
      else None)"

definition isNumByte :: "char \<Rightarrow> bool" where
  \<comment> \<open>\<^verbatim>\<open>c == '.' || '0' <= c && c <= '9'\<close>\<close>
  "isNumByte c = (c = CHR ''.'' \<or> isDigit c)"

text \<open>
  One turn of the loop of \<^verbatim>\<open>ParseDuration\<close>, on a non-empty rest \<open>s\<close>: a number, an
  optional fraction and a unit. It returns the nanoseconds of the group and what is
  left of the string.
\<close>

definition parseGroup :: "string \<Rightarrow> string \<Rightarrow> dur_error + (nat \<times> string)" where
  "parseGroup orig s =
     (if \<not> isNumByte (hd s) then Inl (InvalidDuration orig)
      else
        (case leadingInt s of
           None \<Rightarrow> Inl (InvalidDuration orig)
         | Some (v, s1) \<Rightarrow>
            let pre = (length s \<noteq> length s1);
                (f, scale, s2) =
                   (if s1 \<noteq> [] \<and> hd s1 = CHR ''.'' then leadingFraction (tl s1)
                    else (0, 1, s1));
                post = (s1 \<noteq> [] \<and> hd s1 = CHR ''.'' \<and> length (tl s1) \<noteq> length s2)
            in if \<not> pre \<and> \<not> post then Inl (InvalidDuration orig)
               else
                 let u = takeWhile (\<lambda>c. \<not> isNumByte c) s2;
                     s3 = dropWhile (\<lambda>c. \<not> isNumByte c) s2
                 in if u = [] then Inl (MissingUnit orig)
                    else
                      (case unitMap u of
                         None \<Rightarrow> Inl (UnknownUnit u orig)
                       | Some unit \<Rightarrow>
                          if v > 2 ^ 63 div unit then Inl (InvalidDuration orig)
                          else
                            let v1 = v * unit;
                                v2 = (if f > 0
                                      then (v1 + f64_to_uint64
                                              (f64_mul (f64_of_nat f)
                                                 (f64_div (f64_of_nat unit) scale))) mod 2 ^ 64
                                      else v1)
                            in if f > 0 \<and> v2 > 2 ^ 63 then Inl (InvalidDuration orig)
                               else Inr (v2, s3))))"

lemma leadingInt_loop_length:
  "leadingInt_loop x s = Some (v, r) \<Longrightarrow> length r \<le> length s"
  by (induction x s rule: leadingInt_loop.induct) (auto split: if_splits)

lemma leadingFraction_loop_length:
  "leadingFraction_loop x sc ov s = (f, sc', r) \<Longrightarrow> length r \<le> length s"
  by (induction x sc ov s rule: leadingFraction_loop.induct) (auto split: if_splits)

lemma parseGroup_shorter:
  assumes "parseGroup orig s = Inr (v, r)"
  shows "length r < length s"
proof -
  from assms obtain v0 s1 where li: "leadingInt s = Some (v0, s1)"
    by (auto simp: parseGroup_def split: if_splits option.splits)
  obtain f sc s2 where fr:
    "(if s1 \<noteq> [] \<and> hd s1 = CHR ''.'' then leadingFraction (tl s1) else (0, 1, s1)) = (f, sc, s2)"
    by (metis prod_cases3)
  have l1: "length s1 \<le> length s"
    using li leadingInt_loop_length by (simp add: leadingInt_def)
  have l2: "length s2 \<le> length s1"
    using fr leadingFraction_loop_length [of 0 1 False "tl s1" f sc s2]
    by (auto simp: leadingFraction_def split: if_splits)
  have u: "takeWhile (\<lambda>c. \<not> isNumByte c) s2 \<noteq> []" and r: "r = dropWhile (\<lambda>c. \<not> isNumByte c) s2"
    using assms li fr
    by (auto simp: parseGroup_def Let_def split: if_splits option.splits)
  have "length (takeWhile (\<lambda>c. \<not> isNumByte c) s2) + length r = length s2"
    unfolding r by (metis length_append takeWhile_dropWhile_id)
  with u have "length r < length s2"
    by (cases "takeWhile (\<lambda>c. \<not> isNumByte c) s2") auto
  with l1 l2 show ?thesis by simp
qed

function ParseDuration_loop :: "string \<Rightarrow> nat \<Rightarrow> string \<Rightarrow> dur_error + nat" where
  "ParseDuration_loop orig d s =
     (if s = [] then Inr d
      else
        (case parseGroup orig s of
           Inl e \<Rightarrow> Inl e
         | Inr (v, rest) \<Rightarrow>
            if (d + v) mod 2 ^ 64 > 2 ^ 63 then Inl (InvalidDuration orig)
            else ParseDuration_loop orig ((d + v) mod 2 ^ 64) rest))"
  by pat_completeness auto
termination
  by (relation "measure (\<lambda>(orig, d, s). length s)") (auto dest: parseGroup_shorter)

declare ParseDuration_loop.simps [simp del]

definition ParseDuration :: "string \<Rightarrow> dur_error + int" where
  "ParseDuration orig =
     (let signed = (orig \<noteq> [] \<and> (hd orig = CHR ''-'' \<or> hd orig = CHR ''+''));
          neg = (signed \<and> hd orig = CHR ''-'');
          s = (if signed then tl orig else orig)
      in if s = ''0'' then Inr 0
         else if s = [] then Inl (InvalidDuration orig)
         else
           (case ParseDuration_loop orig 0 s of
              Inl e \<Rightarrow> Inl e
            | Inr d \<Rightarrow>
               if neg then Inr (- int d)
               else if d > 2 ^ 63 - 1 then Inl (InvalidDuration orig)
               else Inr (int d)))"

subsection \<open>\<^verbatim>\<open>Duration.String\<close> and the \<^verbatim>\<open>%d\<close> verb\<close>

text \<open>\<^verbatim>\<open>fmtInt\<close>: the decimal digits of \<open>v\<close>, written from the last one backwards.\<close>

function fmtInt_loop :: "nat \<Rightarrow> string \<Rightarrow> string" where
  "fmtInt_loop v buf = (if v > 0 then fmtInt_loop (v div 10) (digitChar (v mod 10) # buf) else buf)"
  by pat_completeness auto
termination
  by (relation "measure (\<lambda>(v, buf). v)") auto

declare fmtInt_loop.simps [simp del]

definition fmtInt :: "nat \<Rightarrow> string" where
  "fmtInt v = (if v = 0 then ''0'' else fmtInt_loop v [])"

text \<open>
  \<^verbatim>\<open>fmtFrac\<close>: the fraction of \<open>v / 10^prec\<close> without its trailing zeros, and without
  the period when the fraction is zero; it also returns \<open>v / 10^prec\<close>.
\<close>

function fmtFrac_loop :: "nat \<Rightarrow> nat \<Rightarrow> nat \<Rightarrow> bool \<Rightarrow> string \<Rightarrow> string \<times> bool \<times> nat" where
  "fmtFrac_loop i prec v print buf =
     (if i < prec then
        (let digit = v mod 10; print' = (print \<or> digit \<noteq> 0)
         in fmtFrac_loop (i + 1) prec (v div 10) print'
              (if print' then digitChar digit # buf else buf))
      else (buf, print, v))"
  by pat_completeness auto
termination
  by (relation "measure (\<lambda>(i, prec, v, print, buf). prec - i)") auto

declare fmtFrac_loop.simps [simp del]

definition fmtFrac :: "nat \<Rightarrow> nat \<Rightarrow> string \<times> nat" where
  "fmtFrac v prec =
     (case fmtFrac_loop 0 prec v False [] of
        (buf, print, v') \<Rightarrow> (if print then CHR ''.'' # buf else buf, v'))"

definition Duration_String :: "int \<Rightarrow> string" where
  "Duration_String d =
     (let u = nat \<bar>d\<bar>;
          body =
            (if u < 1000000000 then
               (if u = 0 then ''0s''
                else if u < 1000 then fmtInt u @ ''ns''
                else if u < 1000000 then
                  (case fmtFrac u 3 of
                     (fr, u') \<Rightarrow>
                        fmtInt u' @ fr @ [CHR 0xC2, CHR 0xB5, CHR ''s''])
                else (case fmtFrac u 6 of (fr, u') \<Rightarrow> fmtInt u' @ fr @ ''ms''))
             else
               (case fmtFrac u 9 of
                  (fr, u1) \<Rightarrow>
                    let secs = fmtInt (u1 mod 60) @ fr @ ''s''; u2 = u1 div 60
                    in if u2 > 0 then
                         let mins = fmtInt (u2 mod 60) @ ''m'' @ secs; u3 = u2 div 60
                         in if u3 > 0 then fmtInt u3 @ ''h'' @ mins else mins
                       else secs))
      in if d < 0 then CHR ''-'' # body else body)"

definition Itoa :: "int \<Rightarrow> string" where
  \<comment> \<open>what \<^verbatim>\<open>%d\<close> prints: the decimal digits, after a minus sign when negative\<close>
  "Itoa n = (if n < 0 then CHR ''-'' # fmtInt (nat (- n)) else fmtInt (nat n))"

subsection \<open>The rate flag\<close>

record RateFlag =
  Burst :: int
  Interval :: int

datatype error =
    InvalidFormat string              \<comment> \<open>\<^verbatim>\<open>invalid rate %q, expected format burst/duration\<close>\<close>
  | InvalidBurst string num_error     \<comment> \<open>\<^verbatim>\<open>invalid burst %s in event rate: %w\<close>\<close>
  | InvalidInterval string dur_error  \<comment> \<open>\<^verbatim>\<open>invalid interval %q in event rate: %w\<close>\<close>
  | NonPositiveInterval string        \<comment> \<open>\<^verbatim>\<open>invalid interval %q, must be positive\<close>\<close>
  | InvalidHeaderFormat string        \<comment> \<open>\<^verbatim>\<open>invalid header '%s': format must be key=value\<close>\<close>
  | InvalidURL string                 \<comment> \<open>the error of \<^verbatim>\<open>url.Parse\<close> on this text\<close>
  | ErrParse                          \<comment> \<open>\<^verbatim>\<open>parse error\<close>, of a boolean flag\<close>
  | NoSuchFlag string                 \<comment> \<open>\<^verbatim>\<open>no such flag -%v\<close>\<close>

datatype error_kind =
    KInvalidFormat | KInvalidBurst | KInvalidInterval | KNonPositiveInterval
  | KInvalidHeaderFormat | KInvalidURL | KErrParse | KNoSuchFlag

fun kind_of :: "error \<Rightarrow> error_kind" where
  "kind_of (InvalidFormat s) = KInvalidFormat"
| "kind_of (InvalidBurst s e) = KInvalidBurst"
| "kind_of (InvalidInterval s e) = KInvalidInterval"
| "kind_of (NonPositiveInterval s) = KNonPositiveInterval"
| "kind_of (InvalidHeaderFormat s) = KInvalidHeaderFormat"
| "kind_of (InvalidURL s) = KInvalidURL"
| "kind_of ErrParse = KErrParse"
| "kind_of (NoSuchFlag s) = KNoSuchFlag"

text \<open>
  \<^verbatim>\<open>func (f *RateFlag) Set(s string) error\<close>: the receiver is passed in and returned
  with the error, \<open>None\<close> being \<^verbatim>\<open>nil\<close>.
\<close>

definition RateFlag_Set :: "RateFlag \<Rightarrow> string \<Rightarrow> error option \<times> RateFlag" where
  "RateFlag_Set f s =
     (case Cut s CHR ''/'' of
        (before, after, ok) \<Rightarrow>
          if \<not> ok \<or> before = [] \<or> after = [] then (Some (InvalidFormat s), f)
          else
            (case Atoi before of
               Inl err \<Rightarrow> (Some (InvalidBurst before err), f)
             | Inr burst \<Rightarrow>
                let after' = (if \<not> isDigit (hd after) then CHR ''1'' # after else after)
                in (case ParseDuration after' of
                      Inl err \<Rightarrow> (Some (InvalidInterval after' err), f)
                    | Inr interval \<Rightarrow>
                       if interval \<le> 0 then (Some (NonPositiveInterval after'), f)
                       else (None, f\<lparr>Burst := burst, Interval := interval\<rparr>))))"

definition RateFlag_String :: "RateFlag \<Rightarrow> string" where
  \<comment> \<open>\<^verbatim>\<open>fmt.Sprintf("%d/%s", f.Burst, f.Interval)\<close>\<close>
  "RateFlag_String f = Itoa (Burst f) @ ''/'' @ Duration_String (Interval f)"

subsection \<open>The configuration and its flags\<close>

text \<open>
  The package variable \<^verbatim>\<open>Config\<close>. \<^verbatim>\<open>ServerURL\<close> is a pointer, \<open>None\<close> being
  \<^verbatim>\<open>nil\<close>; \<^verbatim>\<open>Headers\<close> is a map, \<open>None\<close> being the \<^verbatim>\<open>nil\<close> map. The type of
  parsed URLs is a parameter.
\<close>

record 'url Config =
  ServerURL :: "'url option"
  SecretToken :: string
  APIKey :: string
  Secure :: bool
  EventRate :: RateFlag
  IgnoreErrors :: bool
  RewriteIDs :: bool
  RewriteTimestamps :: bool
  RewriteServiceNames :: bool
  RewriteServiceNodeNames :: bool
  RewriteServiceTargetNames :: bool
  RewriteSpanNames :: bool
  RewriteTransactionNames :: bool
  RewriteTransactionTypes :: bool
  Headers :: "(string \<rightharpoonup> string) option"

definition Config_zero :: "'url Config" where
  \<comment> \<open>the zero value the variable holds before \<^verbatim>\<open>init\<close> runs\<close>
  "Config_zero =
     \<lparr>ServerURL = None, SecretToken = [], APIKey = [], Secure = False,
      EventRate = \<lparr>Burst = 0, Interval = 0\<rparr>, IgnoreErrors = False,
      RewriteIDs = False, RewriteTimestamps = False, RewriteServiceNames = False,
      RewriteServiceNodeNames = False, RewriteServiceTargetNames = False,
      RewriteSpanNames = False, RewriteTransactionNames = False,
      RewriteTransactionTypes = False, Headers = None\<rparr>"

definition headerEntries :: "'url Config \<Rightarrow> (string \<rightharpoonup> string)" where
  \<comment> \<open>the entries of \<^verbatim>\<open>Config.Headers\<close>; the \<^verbatim>\<open>nil\<close> map has none\<close>
  "headerEntries cfg = (case Headers cfg of None \<Rightarrow> Map.empty | Some m \<Rightarrow> m)"

text \<open>
  The function registered for \<^verbatim>\<open>-server\<close>. \<open>url_Parse\<close> stands for \<^verbatim>\<open>url.Parse\<close>,
  \<open>None\<close> being its error; the assignment
  \<^verbatim>\<open>Config.ServerURL, err = url.Parse(server)\<close> stores the \<^verbatim>\<open>nil\<close> pointer then.
\<close>

definition server_Func ::
  "(string \<Rightarrow> 'url option) \<Rightarrow> 'url Config \<Rightarrow> string \<Rightarrow> error option \<times> 'url Config" where
  "server_Func url_Parse cfg server =
     (if server \<noteq> [] then
        (case url_Parse server of
           None \<Rightarrow> (Some (InvalidURL server), cfg\<lparr>ServerURL := None\<rparr>)
         | Some u \<Rightarrow> (None, cfg\<lparr>ServerURL := Some u\<rparr>))
      else (None, cfg))"

text \<open>The function registered for \<^verbatim>\<open>-header\<close>.\<close>

definition header_Func :: "'url Config \<Rightarrow> string \<Rightarrow> error option \<times> 'url Config" where
  "header_Func cfg s =
     (case Cut s CHR ''='' of
        (k, v, ok) \<Rightarrow>
          if \<not> ok then (Some (InvalidHeaderFormat s), cfg)
          else
            let headers = (case Headers cfg of
                             None \<Rightarrow> Map.empty
                           | Some m \<Rightarrow> if dom m = {} then Map.empty else m)
            in (None, cfg\<lparr>Headers := Some (headers(k \<mapsto> v))\<rparr>))"

text \<open>
  \<^verbatim>\<open>strconv.ParseBool\<close>, and \<^verbatim>\<open>Set\<close> of the \<^verbatim>\<open>flag\<close> package's boolean value,
  which stores the result (\<^verbatim>\<open>false\<close> on an error) before it returns the error.
\<close>

definition ParseBool :: "string \<Rightarrow> num_error + bool" where
  "ParseBool str =
     (if str \<in> set [''1'', ''t'', ''T'', ''true'', ''TRUE'', ''True''] then Inr True
      else if str \<in> set [''0'', ''f'', ''F'', ''false'', ''FALSE'', ''False''] then Inr False
      else Inl ErrSyntax)"

definition boolValue_Set :: "string \<Rightarrow> error option \<times> bool" where
  "boolValue_Set s =
     (case ParseBool s of Inl err \<Rightarrow> (Some ErrParse, False) | Inr v \<Rightarrow> (None, v))"

definition rewriteFlag :: "string \<Rightarrow> string" where
  \<comment> \<open>\<^verbatim>\<open>fmt.Sprintf("rewrite-%ss", strings.Replace(field, ".", "-", -1))\<close>\<close>
  "rewriteFlag field =
     ''rewrite-'' @ map (\<lambda>c. if c = CHR ''.'' then CHR ''-'' else c) field @ ''s''"

text \<open>
  \<^verbatim>\<open>flag.Set(name, value)\<close> on the flags that \<^verbatim>\<open>init\<close> registers: the flag's value
  is set from the text, and the error of that is returned.
\<close>

definition flag_Set ::
  "(string \<Rightarrow> 'url option) \<Rightarrow> string \<Rightarrow> string \<Rightarrow> 'url Config \<Rightarrow> error option \<times> 'url Config"
  where
  "flag_Set url_Parse name v cfg =
     (if name = ''server'' then server_Func url_Parse cfg v
      else if name = ''secret-token'' then (None, cfg\<lparr>SecretToken := v\<rparr>)
      else if name = ''api-key'' then (None, cfg\<lparr>APIKey := v\<rparr>)
      else if name = ''secure'' then
        (case boolValue_Set v of (e, b) \<Rightarrow> (e, cfg\<lparr>Secure := b\<rparr>))
      else if name = ''rewrite-timestamps'' then
        (case boolValue_Set v of (e, b) \<Rightarrow> (e, cfg\<lparr>RewriteTimestamps := b\<rparr>))
      else if name = ''rewrite-ids'' then
        (case boolValue_Set v of (e, b) \<Rightarrow> (e, cfg\<lparr>RewriteIDs := b\<rparr>))
      else if name = ''header'' then header_Func cfg v
      else if name = ''event-rate'' then
        (case RateFlag_Set (EventRate cfg) v of (e, r) \<Rightarrow> (e, cfg\<lparr>EventRate := r\<rparr>))
      else if name = ''ignore-errors'' then
        (case boolValue_Set v of (e, b) \<Rightarrow> (e, cfg\<lparr>IgnoreErrors := b\<rparr>))
      else if name = rewriteFlag ''service.name'' then
        (case boolValue_Set v of (e, b) \<Rightarrow> (e, cfg\<lparr>RewriteServiceNames := b\<rparr>))
      else if name = rewriteFlag ''service.node.name'' then
        (case boolValue_Set v of (e, b) \<Rightarrow> (e, cfg\<lparr>RewriteServiceNodeNames := b\<rparr>))
      else if name = rewriteFlag ''service.target.name'' then
        (case boolValue_Set v of (e, b) \<Rightarrow> (e, cfg\<lparr>RewriteServiceTargetNames := b\<rparr>))
      else if name = rewriteFlag ''span.name'' then
        (case boolValue_Set v of (e, b) \<Rightarrow> (e, cfg\<lparr>RewriteSpanNames := b\<rparr>))
      else if name = rewriteFlag ''transaction.name'' then
        (case boolValue_Set v of (e, b) \<Rightarrow> (e, cfg\<lparr>RewriteTransactionNames := b\<rparr>))
      else if name = rewriteFlag ''transaction.type'' then
        (case boolValue_Set v of (e, b) \<Rightarrow> (e, cfg\<lparr>RewriteTransactionTypes := b\<rparr>))
      else (Some (NoSuchFlag name), cfg))"

subsection \<open>Flags from the environment\<close>

text \<open>
  The environment is the function \<^verbatim>\<open>os.Getenv\<close>: an unset variable reads as the
  empty string.
\<close>

definition getEnvOrDefault :: "(string \<Rightarrow> string) \<Rightarrow> string \<Rightarrow> string \<Rightarrow> string" where
  "getEnvOrDefault env name defaultValue =
     (let v = env name in if v \<noteq> [] then v else defaultValue)"

definition flagEnvMap :: "(string \<times> string \<times> string) list" where
  \<comment> \<open>flag, environment key, default value\<close>
  "flagEnvMap =
     [(''server'', ''ELASTIC_APM_SERVER_URL'', ''http://127.0.0.1:8200''),
      (''secret-token'', ''ELASTIC_APM_SECRET_TOKEN'', []),
      (''api-key'', ''ELASTIC_APM_API_KEY'', []),
      (''secure'', ''ELASTIC_APM_VERIFY_SERVER_CERT'', ''false'')]"

text \<open>
  \<^verbatim>\<open>for k, v := range flagEnvMap { flag.Set(k, getEnvOrDefault(v[0], v[1])) }\<close>: the
  result of \<^verbatim>\<open>flag.Set\<close> is not used, so only the configuration is passed on. Go
  ranges over a map in no fixed order; the four flags write four different fields, and
  the table is walked in the order it is written in.
\<close>

definition setFlagsFromEnv ::
  "(string \<Rightarrow> 'url option) \<Rightarrow> (string \<Rightarrow> string) \<Rightarrow> 'url Config \<Rightarrow> 'url Config" where
  "setFlagsFromEnv url_Parse env cfg =
     foldl (\<lambda>c (k, name, defaultValue).
              snd (flag_Set url_Parse k (getEnvOrDefault env name defaultValue) c))
       cfg flagEnvMap"

definition droppedErrors ::
  "(string \<Rightarrow> 'url option) \<Rightarrow> (string \<Rightarrow> string) \<Rightarrow> error list" where
  \<comment> \<open>the errors that the calls of \<^verbatim>\<open>flag.Set\<close> in \<^verbatim>\<open>setFlagsFromEnv\<close> return and the loop
      does not look at (for these four flags the error does not depend on the
      configuration)\<close>
  "droppedErrors url_Parse env =
     List.map_filter
       (\<lambda>(k, name, defaultValue).
          fst (flag_Set url_Parse k (getEnvOrDefault env name defaultValue)
                 (Config_zero :: 'url Config)))
       flagEnvMap"

definition init :: "(string \<Rightarrow> 'url option) \<Rightarrow> (string \<Rightarrow> string) \<Rightarrow> 'url Config" where
  \<comment> \<open>the flags are registered (which is \<open>flag_Set\<close>), then seeded from the environment\<close>
  "init url_Parse env = setFlagsFromEnv url_Parse env Config_zero"

text \<open>
  The program calls \<^verbatim>\<open>flag.Parse\<close> after \<^verbatim>\<open>init\<close>. The command line is taken as the
  sequence of its flag occurrences (name, value); each is passed to the flag's
  \<^verbatim>\<open>Set\<close>, and the first error ends the process (\<^verbatim>\<open>flag.ExitOnError\<close>).
\<close>

fun flag_Parse ::
  "(string \<Rightarrow> 'url option) \<Rightarrow> (string \<times> string) list \<Rightarrow> 'url Config \<Rightarrow> error + 'url Config"
  where
  "flag_Parse url_Parse [] cfg = Inr cfg"
| "flag_Parse url_Parse ((name, v) # rest) cfg =
     (case flag_Set url_Parse name v cfg of
        (Some e, cfg') \<Rightarrow> Inl e
      | (None, cfg') \<Rightarrow> flag_Parse url_Parse rest cfg')"

definition resolve ::
  "(string \<Rightarrow> 'url option) \<Rightarrow> (string \<Rightarrow> string) \<Rightarrow> (string \<times> string) list
     \<Rightarrow> error + 'url Config" where
  "resolve url_Parse env args = flag_Parse url_Parse args (init url_Parse env)"

definition given :: "string \<Rightarrow> (string \<times> string) list \<Rightarrow> string list" where
  \<comment> \<open>the values a flag is given on the command line, in order\<close>
  "given name args = map snd (filter (\<lambda>(n, v). n = name) args)"

definition url_text :: "string \<Rightarrow> string option" where
  \<comment> \<open>an instance of the parameter for concrete runs: every text is accepted, and the
      URL is represented by its text\<close>
  "url_text s = Some s"

subsection \<open>Concrete inputs\<close>

definition rate0 :: RateFlag where
  \<comment> \<open>the zero value of \<^verbatim>\<open>Config.EventRate\<close>\<close>
  "rate0 = \<lparr>Burst = 0, Interval = 0\<rparr>"

definition env_server :: "string \<Rightarrow> string" where
  \<comment> \<open>an environment that sets \<^verbatim>\<open>ELASTIC_APM_SERVER_URL\<close> only\<close>
  "env_server name =
     (if name = ''ELASTIC_APM_SERVER_URL'' then ''http://apm.example:8200'' else [])"

definition env_verify_yes :: "string \<Rightarrow> string" where
  \<comment> \<open>an environment that sets \<^verbatim>\<open>ELASTIC_APM_VERIFY_SERVER_CERT=yes\<close> only\<close>
  "env_verify_yes name = (if name = ''ELASTIC_APM_VERIFY_SERVER_CERT'' then ''yes'' else [])"

definition env_all :: "string \<Rightarrow> string" where
  \<comment> \<open>an environment that sets the four variables\<close>
  "env_all name =
     (if name = ''ELASTIC_APM_SERVER_URL'' then ''http://apm.example:8200''
      else if name = ''ELASTIC_APM_SECRET_TOKEN'' then ''s3cret''
      else if name = ''ELASTIC_APM_API_KEY'' then ''key1''
      else if name = ''ELASTIC_APM_VERIFY_SERVER_CERT'' then ''true''
      else [])"

definition env_unset :: "string \<Rightarrow> string" where
  \<comment> \<open>an environment with no variable set\<close>
  "env_unset name = []"

section \<open>Properties of the library functions\<close>

lemma isDigit_digitChar: "d < 10 \<Longrightarrow> isDigit (digitChar d)"
  by (simp add: isDigit_def digitChar_def)

lemma digitVal_digitChar: "d < 10 \<Longrightarrow> digitVal (digitChar d) = d"
  by (simp add: digitVal_def digitChar_def)

lemma isDigit_not_special:
  "isDigit c \<Longrightarrow> c \<noteq> CHR ''-'' \<and> c \<noteq> CHR ''+'' \<and> c \<noteq> CHR ''/'' \<and> c \<noteq> CHR ''.''"
  by (auto simp: isDigit_def)

lemma Cut_found: "sep \<notin> set k \<Longrightarrow> Cut (k @ sep # v) sep = (k, v, True)"
  by (induction k) (auto simp: Cut_def)

lemma fmtInt_loop_buf: "fmtInt_loop v buf = fmtInt_loop v [] @ buf"
proof (induction v arbitrary: buf rule: less_induct)
  case (less v)
  show ?case
  proof (cases "v > 0")
    case True
    then have lt: "v div 10 < v" by simp
    have "fmtInt_loop v buf = fmtInt_loop (v div 10) (digitChar (v mod 10) # buf)"
      using True by (simp add: fmtInt_loop.simps [of v buf])
    also have "\<dots> = fmtInt_loop (v div 10) [] @ digitChar (v mod 10) # buf"
      using less [OF lt] .
    also have "\<dots> = (fmtInt_loop (v div 10) [] @ [digitChar (v mod 10)]) @ buf"
      by simp
    also have "fmtInt_loop (v div 10) [] @ [digitChar (v mod 10)]
                 = fmtInt_loop (v div 10) [digitChar (v mod 10)]"
      using less [OF lt, of "[digitChar (v mod 10)]"] by simp
    also have "fmtInt_loop (v div 10) [digitChar (v mod 10)] = fmtInt_loop v []"
      using True by (simp add: fmtInt_loop.simps [of v "[]"])
    finally show ?thesis .
  next
    case False
    then show ?thesis by (simp add: fmtInt_loop.simps [of 0])
  qed
qed

lemma fmtInt_loop_step:
  "v > 0 \<Longrightarrow> fmtInt_loop v [] = fmtInt_loop (v div 10) [] @ [digitChar (v mod 10)]"
  using fmtInt_loop_buf [of "v div 10" "[digitChar (v mod 10)]"]
  by (simp add: fmtInt_loop.simps [of v "[]"])

lemma fmtInt_loop_zero: "fmtInt_loop 0 [] = []"
  by (simp add: fmtInt_loop.simps [of 0])

lemma fmtInt_loop_digits: "list_all isDigit (fmtInt_loop v [])"
proof (induction v rule: less_induct)
  case (less v)
  show ?case
  proof (cases "v > 0")
    case True
    then have "v div 10 < v" by simp
    from less [OF this] True show ?thesis
      by (simp add: fmtInt_loop_step isDigit_digitChar)
  next
    case False
    then show ?thesis by (simp add: fmtInt_loop_zero)
  qed
qed

lemma fmtInt_loop_nonempty: "v > 0 \<Longrightarrow> fmtInt_loop v [] \<noteq> []"
  by (simp add: fmtInt_loop_step)

lemma fmtInt_digits: "list_all isDigit (fmtInt v)"
  by (simp add: fmtInt_def fmtInt_loop_digits isDigit_def)

lemma fmtInt_nonempty: "fmtInt v \<noteq> []"
  by (simp add: fmtInt_def fmtInt_loop_nonempty)

lemma atoi_digits_snoc:
  "atoi_digits n (xs @ [c]) =
     (case atoi_digits n xs of
        None \<Rightarrow> None
      | Some m \<Rightarrow> if \<not> isDigit c then None else Some (m * 10 + digitVal c))"
  by (induction xs arbitrary: n) auto

lemma atoi_digits_fmtInt_loop: "atoi_digits 0 (fmtInt_loop v []) = Some v"
proof (induction v rule: less_induct)
  case (less v)
  show ?case
  proof (cases "v > 0")
    case True
    then have "v div 10 < v" by simp
    from less [OF this] True show ?thesis
      by (simp add: fmtInt_loop_step atoi_digits_snoc isDigit_digitChar digitVal_digitChar)
  next
    case False
    then show ?thesis by (simp add: fmtInt_loop_zero)
  qed
qed

lemma atoi_digits_fmtInt: "atoi_digits 0 (fmtInt v) = Some v"
  by (simp add: fmtInt_def atoi_digits_fmtInt_loop isDigit_def digitVal_def)

lemma ParseUint_loop_snoc:
  "ParseUint_loop n (xs @ [c]) =
     (case ParseUint_loop n xs of
        Inl e \<Rightarrow> Inl e
      | Inr m \<Rightarrow>
         if \<not> isDigit c then Inl ErrSyntax
         else if m \<ge> (2 ^ 64 - 1) div 10 + 1 then Inl ErrRange
         else if m * 10 + digitVal c > 2 ^ 64 - 1 then Inl ErrRange
         else Inr (m * 10 + digitVal c))"
  by (induction xs arbitrary: n) auto

lemma ParseUint_loop_fmtInt_loop:
  "v < 2 ^ 64 \<Longrightarrow> ParseUint_loop 0 (fmtInt_loop v []) = Inr v"
proof (induction v rule: less_induct)
  case (less v)
  show ?case
  proof (cases "v > 0")
    case True
    then have lt: "v div 10 < v" by simp
    have b: "v div 10 < 2 ^ 64" using less.prems by simp
    have c: "\<not> v div 10 \<ge> (2 ^ 64 - 1) div 10 + 1" using less.prems by simp
    have d: "\<not> v div 10 * 10 + v mod 10 > 2 ^ 64 - 1" using less.prems by simp
    from less.IH [OF lt b] True c d show ?thesis
      by (simp add: fmtInt_loop_step ParseUint_loop_snoc isDigit_digitChar digitVal_digitChar)
  next
    case False
    then show ?thesis by (simp add: fmtInt_loop_zero)
  qed
qed

lemma ParseUint_fmtInt: "v < 2 ^ 64 \<Longrightarrow> ParseUint (fmtInt v) = Inr v"
  using ParseUint_loop_fmtInt_loop [of v]
  by (cases "v = 0") (simp_all add: ParseUint_def fmtInt_def fmtInt_loop_nonempty isDigit_def digitVal_def)

lemma hd_fmtInt: "isDigit (hd (fmtInt v))"
  using fmtInt_digits [of v] fmtInt_nonempty [of v] by (cases "fmtInt v") auto

lemma Atoi_fmtInt: "v < 2 ^ 63 \<Longrightarrow> Atoi (fmtInt v) = Inr (int v)"
proof -
  assume v: "v < 2 ^ 63"
  have h: "hd (fmtInt v) \<noteq> CHR ''-''" "hd (fmtInt v) \<noteq> CHR ''+''"
    using hd_fmtInt [of v] isDigit_not_special by blast+
  have fast: "atoi_fast (fmtInt v) = Inr (int v)"
    using h fmtInt_nonempty [of v]
    by (simp add: atoi_fast_def atoi_digits_fmtInt)
  have "v < 2 ^ 64" using v by simp
  then have slow: "ParseInt (fmtInt v) = Inr (int v)"
    using h v fmtInt_nonempty [of v] by (simp add: ParseInt_def ParseUint_fmtInt)
  show ?thesis by (simp add: Atoi_def fast slow)
qed

lemma Atoi_Itoa: "0 \<le> n \<Longrightarrow> n < 2 ^ 63 \<Longrightarrow> Atoi (Itoa n) = Inr n"
  using Atoi_fmtInt [of "nat n"] by (simp add: Itoa_def nat_less_iff)

lemma Itoa_no_slash: "0 \<le> n \<Longrightarrow> CHR ''/'' \<notin> set (Itoa n)"
  using fmtInt_digits [of "nat n"] isDigit_not_special
  by (auto simp: Itoa_def list_all_iff)

lemma Itoa_nonempty: "Itoa n \<noteq> []"
  by (simp add: Itoa_def fmtInt_nonempty)


lemmas dur_eval = ParseDuration_def ParseDuration_loop.simps parseGroup_def leadingInt_def
  isNumByte_def isDigit_def digitVal_def unitMap_def

lemmas rate_eval = RateFlag_Set_def Cut_def Atoi_def atoi_fast_def Let_def

lemma digitChar_simps:
  "digitChar 0 = CHR ''0''" "digitChar (Suc 0) = CHR ''1''" "digitChar 2 = CHR ''2''"
  "digitChar 3 = CHR ''3''" "digitChar 4 = CHR ''4''" "digitChar 5 = CHR ''5''"
  "digitChar 6 = CHR ''6''" "digitChar 7 = CHR ''7''" "digitChar 8 = CHR ''8''"
  "digitChar 9 = CHR ''9''"
  by (simp_all add: digitChar_def char_of_def bit_Suc_0_iff)

lemmas string_eval = RateFlag_String_def Itoa_def fmtInt_def fmtInt_loop.simps digitChar_simps
  Duration_String_def fmtFrac_def fmtFrac_loop.simps Let_def

text \<open>
  The rounding is exact on the integers below \<open>2^53\<close>, which is all that the fraction of
  a short decimal needs.
\<close>

lemma quotient_of_of_nat: "quotient_of (of_nat n) = (int n, 1)"
  using quotient_of_int [of "int n"] by (simp add: Rat.of_int_def)

lemma ilog2_of_nat_le:
  assumes "n < 2 ^ 53"
  shows "ilog2 (of_nat n) \<le> 52"
proof -
  have "bitlen (int n) \<le> 53"
    using assms by (simp add: bitlen_le_iff_power)
  moreover have "bitlen 1 = 1"
    by (simp add: bitlen_alt_def)
  ultimately show ?thesis
    by (simp add: ilog2_def quotient_of_of_nat Let_def)
qed

lemma f64_round_of_nat:
  assumes "n < 2 ^ 53"
  shows "f64_round (of_nat n) = of_nat n"
proof (cases "n = 0")
  case True
  then show ?thesis by (simp add: f64_round_def)
next
  case False
  define k where "k = nat (52 - ilog2 (of_nat n))"
  have e: "ilog2 (of_nat n) - 52 = - int k"
    using ilog2_of_nat_le [OF assms] by (simp add: k_def)
  have u: "(2::rat) powi (ilog2 (of_nat n) - 52) = 1 / 2 ^ k"
    unfolding e by (simp add: power_int_minus_divide)
  have m: "(of_nat n :: rat) / (1 / 2 ^ k) = of_int (int (n * 2 ^ k))"
    by simp
  show ?thesis
    using False
    by (simp add: f64_round_def u Let_def m del: of_int_of_nat_eq of_nat_mult of_nat_power)
qed

lemma f64_round_numeral:
  "(numeral k :: nat) < 2 ^ 53 \<Longrightarrow> f64_round (numeral k) = numeral k"
  using f64_round_of_nat [of "numeral k"] by simp

lemma f64_round_1: "f64_round 1 = 1"
  using f64_round_of_nat [of 1] by simp

lemmas f64_eval = f64_of_nat_def f64_mul_def f64_div_def f64_to_uint64_def f64_round_numeral
  f64_round_1 leadingFraction_def

lemma leadingInt_loop_keeps:
  "leadingInt_loop x s = Some (v, r) \<Longrightarrow> c \<in> set s \<Longrightarrow> \<not> isDigit c \<Longrightarrow> c \<in> set r"
  by (induction x s rule: leadingInt_loop.induct) (auto split: if_splits)

lemma leadingFraction_loop_keeps:
  "leadingFraction_loop x sc ov s = (f, sc', r) \<Longrightarrow> c \<in> set s \<Longrightarrow> \<not> isDigit c \<Longrightarrow> c \<in> set r"
  by (induction x sc ov s rule: leadingFraction_loop.induct) (auto split: if_splits)

lemma unitMap_no_slash: "unitMap u = Some n \<Longrightarrow> CHR ''/'' \<notin> set u"
  by (auto simp: unitMap_def split: if_splits)

lemma slash_not_digit: "\<not> isDigit CHR ''/''"
  by (simp add: isDigit_def)

lemma parseGroup_keeps_slash:
  assumes "parseGroup orig s = Inr (v, r)" and "CHR ''/'' \<in> set s"
  shows "CHR ''/'' \<in> set r"
proof -
  from assms(1) obtain v0 s1 where li: "leadingInt s = Some (v0, s1)"
    by (auto simp: parseGroup_def split: if_splits option.splits)
  obtain f sc s2 where fr:
    "(if s1 \<noteq> [] \<and> hd s1 = CHR ''.'' then leadingFraction (tl s1) else (0, 1, s1)) = (f, sc, s2)"
    by (metis prod_cases3)
  have m1: "CHR ''/'' \<in> set s1"
    using li assms(2) leadingInt_loop_keeps [of 0 s v0 s1 "CHR ''/''"] slash_not_digit
    by (simp add: leadingInt_def)
  have m2: "CHR ''/'' \<in> set s2"
  proof (cases "s1 \<noteq> [] \<and> hd s1 = CHR ''.''")
    case True
    then have "CHR ''/'' \<in> set (tl s1)" using m1 by (cases s1) auto
    moreover have "leadingFraction_loop 0 1 False (tl s1) = (f, sc, s2)"
      using fr True by (simp add: leadingFraction_def)
    ultimately show ?thesis
      using leadingFraction_loop_keeps slash_not_digit by blast
  next
    case False
    then show ?thesis using fr m1 by auto
  qed
  obtain n where u: "unitMap (takeWhile (\<lambda>c. \<not> isNumByte c) s2) = Some n"
    and r: "r = dropWhile (\<lambda>c. \<not> isNumByte c) s2"
    using assms(1) li fr
    by (auto simp: parseGroup_def Let_def split: if_splits option.splits)
  have "set s2 = set (takeWhile (\<lambda>c. \<not> isNumByte c) s2) \<union> set r"
    unfolding r by (metis set_append takeWhile_dropWhile_id)
  with m2 unitMap_no_slash [OF u] show ?thesis by auto
qed

lemma ParseDuration_loop_slash:
  "CHR ''/'' \<in> set s \<Longrightarrow> \<exists>e. ParseDuration_loop orig d s = Inl e"
proof (induction orig d s rule: ParseDuration_loop.induct)
  case (1 orig d s)
  from "1.prems" have ne: "s \<noteq> []" by auto
  show ?case
  proof (cases "parseGroup orig s")
    case (Inl e)
    then show ?thesis using ne by (simp add: ParseDuration_loop.simps [of orig d s])
  next
    case (Inr p)
    obtain v rest where p: "p = (v, rest)" by (cases p)
    have m: "CHR ''/'' \<in> set rest"
      using parseGroup_keeps_slash Inr p "1.prems" by blast
    show ?thesis
    proof (cases "(d + v) mod 2 ^ 64 > 2 ^ 63")
      case True
      then show ?thesis using ne Inr p by (simp add: ParseDuration_loop.simps [of orig d s])
    next
      case False
      from "1.IH" [OF ne Inr p [symmetric] False m] show ?thesis
        using ne Inr p False by (simp add: ParseDuration_loop.simps [of orig d s])
    qed
  qed
qed

lemma ParseDuration_slash:
  assumes "CHR ''/'' \<in> set s"
  shows "\<exists>e. ParseDuration s = Inl e"
proof -
  let ?t = "if s \<noteq> [] \<and> (hd s = CHR ''-'' \<or> hd s = CHR ''+'') then tl s else s"
  have m: "CHR ''/'' \<in> set ?t" using assms by (cases s) auto
  then have n0: "?t \<noteq> ''0''" and ne: "?t \<noteq> []" by auto
  from ParseDuration_loop_slash [OF m] obtain e where "ParseDuration_loop s 0 ?t = Inl e" by blast
  then show ?thesis using n0 ne by (simp add: ParseDuration_def Let_def)
qed

lemma RateFlag_Set_slash_in_interval:
  assumes "CHR ''/'' \<notin> set b1" and "CHR ''/'' \<in> set a"
  shows "map_option kind_of (fst (RateFlag_Set f (b1 @ CHR ''/'' # a))) =
           (if b1 = [] then Some KInvalidFormat
            else case Atoi b1 of Inl e \<Rightarrow> Some KInvalidBurst | Inr n \<Rightarrow> Some KInvalidInterval)
         \<and> snd (RateFlag_Set f (b1 @ CHR ''/'' # a)) = f"
proof -
  have c: "Cut (b1 @ CHR ''/'' # a) CHR ''/'' = (b1, a, True)"
    using assms(1) by (rule Cut_found)
  have ne: "a \<noteq> []" using assms(2) by auto
  have "CHR ''/'' \<in> set (CHR ''1'' # a)" using assms(2) by simp
  from ParseDuration_slash [OF this] obtain e1 where e1: "ParseDuration (CHR ''1'' # a) = Inl e1"
    by blast
  from ParseDuration_slash [OF assms(2)] obtain e2 where e2: "ParseDuration a = Inl e2"
    by blast
  show ?thesis
    using ne e1 e2 by (simp add: RateFlag_Set_def c split: sum.splits)
qed

lemmas flag_eval = flag_Set_def server_Func_def header_Func_def boolValue_Set_def ParseBool_def
  rewriteFlag_def

lemma getEnvOrDefault_nonempty: "d \<noteq> [] \<Longrightarrow> getEnvOrDefault env n d \<noteq> []"
  by (simp add: getEnvOrDefault_def Let_def)

lemma init_SecretToken:
  "SecretToken (init P env) = getEnvOrDefault env ''ELASTIC_APM_SECRET_TOKEN'' []"
  by (simp add: init_def setFlagsFromEnv_def flagEnvMap_def Config_zero_def flag_Set_def
      server_Func_def boolValue_Set_def split: sum.splits option.splits prod.splits)

lemma init_APIKey:
  "APIKey (init P env) = getEnvOrDefault env ''ELASTIC_APM_API_KEY'' []"
  by (simp add: init_def setFlagsFromEnv_def flagEnvMap_def Config_zero_def flag_Set_def
      server_Func_def boolValue_Set_def split: sum.splits option.splits prod.splits)

lemma init_Secure:
  "Secure (init P env) =
     (ParseBool (getEnvOrDefault env ''ELASTIC_APM_VERIFY_SERVER_CERT'' ''false'') = Inr True)"
  by (simp add: init_def setFlagsFromEnv_def flagEnvMap_def Config_zero_def flag_Set_def
      server_Func_def boolValue_Set_def split: sum.splits option.splits prod.splits)

lemma init_ServerURL:
  "ServerURL (init P env) =
     P (getEnvOrDefault env ''ELASTIC_APM_SERVER_URL'' ''http://127.0.0.1:8200'')"
  using getEnvOrDefault_nonempty [of "''http://127.0.0.1:8200''" env "''ELASTIC_APM_SERVER_URL''"]
  by (simp add: init_def setFlagsFromEnv_def flagEnvMap_def Config_zero_def flag_Set_def
      server_Func_def boolValue_Set_def split: sum.splits option.splits prod.splits)

lemma header_Func_fields:
  "SecretToken (snd (header_Func c s)) = SecretToken c"
  "APIKey (snd (header_Func c s)) = APIKey c"
  "Secure (snd (header_Func c s)) = Secure c"
  "ServerURL (snd (header_Func c s)) = ServerURL c"
  by (simp_all add: header_Func_def split_beta Let_def)

lemma server_Func_fields:
  "SecretToken (snd (server_Func P c s)) = SecretToken c"
  "APIKey (snd (server_Func P c s)) = APIKey c"
  "Secure (snd (server_Func P c s)) = Secure c"
  "ServerURL (snd (server_Func P c s)) = (if s \<noteq> [] then P s else ServerURL c)"
  by (simp_all add: server_Func_def split: option.splits)

lemma boolValue_Set_snd: "snd (boolValue_Set v) = (ParseBool v = Inr True)"
  by (simp add: boolValue_Set_def split: sum.splits)

lemma flag_Set_SecretToken:
  "SecretToken (snd (flag_Set P n v c)) = (if n = ''secret-token'' then v else SecretToken c)"
  unfolding flag_Set_def
  by (simp add: server_Func_fields header_Func_fields split_beta)

lemma flag_Set_APIKey:
  "APIKey (snd (flag_Set P n v c)) = (if n = ''api-key'' then v else APIKey c)"
  unfolding flag_Set_def
  by (simp add: server_Func_fields header_Func_fields split_beta)

lemma flag_Set_Secure:
  "Secure (snd (flag_Set P n v c)) =
     (if n = ''secure'' then ParseBool v = Inr True else Secure c)"
  unfolding flag_Set_def
  by (simp add: server_Func_fields header_Func_fields boolValue_Set_snd split_beta)

lemma flag_Set_ServerURL:
  "ServerURL (snd (flag_Set P n v c)) =
     (if n = ''server'' \<and> v \<noteq> [] then P v else ServerURL c)"
  unfolding flag_Set_def
  by (simp add: server_Func_fields header_Func_fields split_beta)

lemma flag_Set_secure_ok:
  "flag_Set P ''secure'' v c = (None, c1) \<Longrightarrow> ParseBool v = Inr (Secure c1)"
  by (auto simp: flag_Set_def boolValue_Set_def split: sum.splits)

lemma flag_Set_server_ok:
  "v \<noteq> [] \<Longrightarrow> flag_Set P ''server'' v c = (None, c1) \<Longrightarrow>
     P v = ServerURL c1 \<and> ServerURL c1 \<noteq> None"
  by (auto simp: flag_Set_def server_Func_def split: option.splits)

lemma flag_Set_secret_token_ok:
  "flag_Set P ''secret-token'' v c = (None, c1) \<Longrightarrow> SecretToken c1 = v"
  by (auto simp: flag_Set_def)

lemma flag_Set_api_key_ok:
  "flag_Set P ''api-key'' v c = (None, c1) \<Longrightarrow> APIKey c1 = v"
  by (auto simp: flag_Set_def)

text \<open>
  What a successful \<open>flag_Parse\<close> leaves in a field that only one flag writes: the
  field is as it was when the flag is not given (with a value it acts on), and is what
  the last such value denotes otherwise.
\<close>

lemma flag_Parse_track:
  assumes frame: "\<And>n v c. \<not> (n = name \<and> ok v) \<Longrightarrow> fld (snd (flag_Set P n v c)) = fld c"
    and hit: "\<And>v c c1. ok v \<Longrightarrow> flag_Set P name v c = (None, c1) \<Longrightarrow> Q v (fld c1)"
  shows "flag_Parse P args c = Inr c' \<Longrightarrow>
           (if filter ok (given name args) = [] then fld c' = fld c
            else Q (last (filter ok (given name args))) (fld c'))"
proof (induction args arbitrary: c)
  case Nil
  then show ?case by (simp add: given_def)
next
  case (Cons a args)
  obtain n v where a: "a = (n, v)" by (cases a)
  from Cons.prems obtain c1 where s: "flag_Set P n v c = (None, c1)"
    and r: "flag_Parse P args c1 = Inr c'"
    by (auto simp: a split: prod.splits option.splits)
  note ih = Cons.IH [OF r]
  show ?case
  proof (cases "filter ok (given name args) = []")
    case False
    with ih show ?thesis by (simp add: a given_def)
  next
    case True
    with ih have e: "fld c' = fld c1" by simp
    show ?thesis
    proof (cases "n = name \<and> ok v")
      case True
      with hit [of v c c1] s e \<open>filter ok (given name args) = []\<close> show ?thesis
        by (simp add: a given_def)
    next
      case False
      with frame [of n v c] s e \<open>filter ok (given name args) = []\<close> show ?thesis
        by (auto simp: a given_def)
    qed
  qed
qed

section \<open>The rate flag: claims\<close>

text \<open>
  Claim C1, as the specification states it: for every burst \<open>\<ge> 0\<close> and every interval
  text \<open>d\<close> that parses as a positive duration, the text \<open>burst/d\<close> parses to that burst
  and that duration. It fails for an interval with a sign: \<^verbatim>\<open>+1s\<close> is a duration of one
  second, but its first byte is not a digit, so \<^verbatim>\<open>Set\<close> parses \<^verbatim>\<open>1+1s\<close> and fails.
\<close>

theorem rate_signed_interval_rejected:
  "ParseDuration ''+1s'' = Inr 1000000000
   \<and> RateFlag_Set rate0 ''10/+1s''
       = (Some (InvalidInterval ''1+1s'' (UnknownUnit ''+'' ''1+1s'')), rate0)"
  by (simp add: rate_eval dur_eval rate0_def)

text \<open>
  Claim C1, amended: for every burst with \<open>0 \<le> burst < 2^63\<close> (a non-negative Go
  \<^verbatim>\<open>int\<close>) and every interval text \<open>d\<close> that starts with a decimal digit and parses as
  a positive duration, the text \<open>burst/d\<close> parses, and the result has that burst and
  that duration.
\<close>

theorem rate_parse_burst_interval:
  assumes "0 \<le> burst" and "burst < 2 ^ 63"
    and "d \<noteq> []" and "isDigit (hd d)"
    and "ParseDuration d = Inr iv" and "0 < iv"
  shows "RateFlag_Set f (Itoa burst @ ''/'' @ d) = (None, f\<lparr>Burst := burst, Interval := iv\<rparr>)"
proof -
  have c: "Cut (Itoa burst @ CHR ''/'' # d) CHR ''/'' = (Itoa burst, d, True)"
    using Itoa_no_slash [OF assms(1)] by (rule Cut_found)
  show ?thesis
    using assms by (simp add: RateFlag_Set_def c Itoa_nonempty Atoi_Itoa)
qed

theorem rate_parse_burst_interval_witness:
  "Itoa 200 @ ''/'' @ ''5s'' = ''200/5s''
   \<and> RateFlag_Set rate0 (Itoa 200 @ ''/'' @ ''5s'') = (None, \<lparr>Burst = 200, Interval = 5000000000\<rparr>)"
proof -
  have d: "isDigit (hd ''5s'')" by (simp add: isDigit_def)
  have p: "ParseDuration ''5s'' = Inr 5000000000" by (simp add: dur_eval)
  have t: "Itoa 200 @ ''/'' @ ''5s'' = ''200/5s''" by (simp add: string_eval)
  from rate_parse_burst_interval [of 200 "''5s''" 5000000000 rate0, OF _ _ _ d p]
  have "RateFlag_Set rate0 (Itoa 200 @ ''/'' @ ''5s'')
          = (None, rate0\<lparr>Burst := 200, Interval := 5000000000\<rparr>)"
    by simp
  with t show ?thesis by (simp add: rate0_def)
qed

text \<open>
  An interval that starts with a period is outside the amended claim as well: \<^verbatim>\<open>.5s\<close>
  is half a second for \<^verbatim>\<open>time.ParseDuration\<close>, and \<^verbatim>\<open>Set\<close> reads \<^verbatim>\<open>10/.5s\<close> as
  \<^verbatim>\<open>1.5s\<close>.
\<close>

lemma rate_leading_period_example:
  "ParseDuration ''.5s'' = Inr 500000000
   \<and> RateFlag_Set rate0 ''10/.5s'' = (None, \<lparr>Burst = 10, Interval = 1500000000\<rparr>)"
  by (simp add: rate_eval dur_eval f64_eval rate0_def)

text \<open>
  Claim C3: for every burst text \<open>b\<close> and every non-empty interval text \<open>u\<close> whose first
  byte is not a decimal digit, parsing \<open>b/u\<close> and parsing \<open>b/1u\<close> end the same way: both
  succeed or both fail with the same kind of error, and the target is the same
  afterwards. In particular \<^verbatim>\<open>10/s\<close> parses, with an interval of one second.
\<close>

theorem rate_unit_shorthand:
  assumes "u \<noteq> []" and "\<not> isDigit (hd u)"
  shows "map_option kind_of (fst (RateFlag_Set f (b @ ''/'' @ u))) =
           map_option kind_of (fst (RateFlag_Set f (b @ ''/1'' @ u)))
         \<and> snd (RateFlag_Set f (b @ ''/'' @ u)) = snd (RateFlag_Set f (b @ ''/1'' @ u))
         \<and> RateFlag_Set f ''10/s'' = (None, f\<lparr>Burst := 10, Interval := 1000000000\<rparr>)"
proof -
  have ex: "RateFlag_Set f ''10/s'' = (None, f\<lparr>Burst := 10, Interval := 1000000000\<rparr>)"
    by (simp add: rate_eval dur_eval)
  have eq: "map_option kind_of (fst (RateFlag_Set f (b @ ''/'' @ u))) =
              map_option kind_of (fst (RateFlag_Set f (b @ ''/1'' @ u)))
            \<and> snd (RateFlag_Set f (b @ ''/'' @ u)) = snd (RateFlag_Set f (b @ ''/1'' @ u))"
  proof (cases "CHR ''/'' \<in> set b")
    case False
    have c1: "Cut (b @ CHR ''/'' # u) CHR ''/'' = (b, u, True)"
      using False by (rule Cut_found)
    have c2: "Cut (b @ CHR ''/'' # CHR ''1'' # u) CHR ''/'' = (b, CHR ''1'' # u, True)"
      using False by (rule Cut_found)
    have d: "isDigit CHR ''1''" by (simp add: isDigit_def)
    show ?thesis
      using assms d by (simp add: RateFlag_Set_def c1 c2 Let_def split: sum.splits)
  next
    case True
    then obtain b1 b2 where b: "b = b1 @ CHR ''/'' # b2" and nb: "CHR ''/'' \<notin> set b1"
      by (meson split_list_first)
    have s1: "b @ ''/'' @ u = b1 @ CHR ''/'' # (b2 @ ''/'' @ u)"
      and s2: "b @ ''/1'' @ u = b1 @ CHR ''/'' # (b2 @ ''/1'' @ u)"
      by (simp_all add: b)
    have m1: "CHR ''/'' \<in> set (b2 @ ''/'' @ u)" and m2: "CHR ''/'' \<in> set (b2 @ ''/1'' @ u)"
      by simp_all
    show ?thesis
      unfolding s1 s2
      using RateFlag_Set_slash_in_interval [OF nb m1, of f]
        RateFlag_Set_slash_in_interval [OF nb m2, of f]
      by simp
  qed
  from eq ex show ?thesis by simp
qed

theorem rate_unit_shorthand_witness:
  "\<not> isDigit (hd ''ms'')
   \<and> RateFlag_Set rate0 ''7/ms'' = (None, \<lparr>Burst = 7, Interval = 1000000\<rparr>)
   \<and> snd (RateFlag_Set rate0 ''7/1ms'') = \<lparr>Burst = 7, Interval = 1000000\<rparr>
   \<and> fst (RateFlag_Set rate0 ''7/1ms'') = None"
proof -
  have d: "\<not> isDigit (hd ''ms'')" by (simp add: isDigit_def)
  have l: "RateFlag_Set rate0 ''7/ms'' = (None, \<lparr>Burst = 7, Interval = 1000000\<rparr>)"
    by (simp add: rate_eval dur_eval rate0_def)
  from rate_unit_shorthand [of "''ms''" rate0 "''7''", OF _ d]
  have "map_option kind_of (fst (RateFlag_Set rate0 ''7/ms'')) =
          map_option kind_of (fst (RateFlag_Set rate0 ''7/1ms''))"
    and "snd (RateFlag_Set rate0 ''7/ms'') = snd (RateFlag_Set rate0 ''7/1ms'')"
    by simp_all
  with d l show ?thesis by simp
qed

text \<open>
  Claim C4, as the specification states it: \<^verbatim>\<open>10/0s\<close> and \<^verbatim>\<open>10/-1s\<close> both fail with
  the error of a non-positive interval. The second does not: the minus sign is not a
  digit, so \<^verbatim>\<open>Set\<close> parses \<^verbatim>\<open>1-1s\<close>, which is a malformed duration (unknown unit
  \<^verbatim>\<open>-\<close>), and the error is the one of an invalid interval.
\<close>

theorem rate_negative_interval_error:
  "RateFlag_Set rate0 ''10/-1s''
     = (Some (InvalidInterval ''1-1s'' (UnknownUnit ''-'' ''1-1s'')), rate0)
   \<and> kind_of (InvalidInterval ''1-1s'' (UnknownUnit ''-'' ''1-1s'')) \<noteq> KNonPositiveInterval"
  by (simp add: rate_eval dur_eval rate0_def)

text \<open>
  Claim C4, amended: \<^verbatim>\<open>10/0s\<close> fails with the error of a non-positive interval;
  \<^verbatim>\<open>10/-1s\<close> fails too, with the error of an invalid interval, on the rewritten text
  \<^verbatim>\<open>1-1s\<close>. Neither changes the target.
\<close>

theorem rate_nonpositive_interval:
  "RateFlag_Set f ''10/0s'' = (Some (NonPositiveInterval ''0s''), f)
   \<and> RateFlag_Set f ''10/-1s''
       = (Some (InvalidInterval ''1-1s'' (UnknownUnit ''-'' ''1-1s'')), f)"
  by (simp add: rate_eval dur_eval)

theorem rate_nonpositive_interval_witness:
  "RateFlag_Set \<lparr>Burst = 3, Interval = 4\<rparr> ''10/0s''
     = (Some (NonPositiveInterval ''0s''), \<lparr>Burst = 3, Interval = 4\<rparr>)"
  using rate_nonpositive_interval [of "\<lparr>Burst = 3, Interval = 4\<rparr>"] by simp

text \<open>
  Claim C5: whenever \<^verbatim>\<open>Set\<close> returns an error, the target is what it was before the
  call: neither \<^verbatim>\<open>Burst\<close> nor \<^verbatim>\<open>Interval\<close> is written on a failure path.
\<close>

theorem rate_failure_leaves_target:
  "fst (RateFlag_Set f s) \<noteq> None \<Longrightarrow> snd (RateFlag_Set f s) = f"
  by (auto simp: RateFlag_Set_def Let_def split: prod.splits sum.splits if_splits)

theorem rate_failure_leaves_target_witness:
  "map (\<lambda>s. map_option kind_of (fst (RateFlag_Set \<lparr>Burst = 3, Interval = 4\<rparr> s)))
       [''100'', ''/5s'', ''10/'', ''x/5s'', ''10/xs'', ''10/0s'']
     = [Some KInvalidFormat, Some KInvalidFormat, Some KInvalidFormat, Some KInvalidBurst,
        Some KInvalidInterval, Some KNonPositiveInterval]
   \<and> map (\<lambda>s. snd (RateFlag_Set \<lparr>Burst = 3, Interval = 4\<rparr> s))
       [''100'', ''/5s'', ''10/'', ''x/5s'', ''10/xs'', ''10/0s'']
     = replicate 6 \<lparr>Burst = 3, Interval = 4\<rparr>"
proof -
  let ?r = "\<lparr>Burst = 3, Interval = 4\<rparr>"
  have e: "map (\<lambda>s. map_option kind_of (fst (RateFlag_Set ?r s)))
       [''100'', ''/5s'', ''10/'', ''x/5s'', ''10/xs'', ''10/0s'']
     = [Some KInvalidFormat, Some KInvalidFormat, Some KInvalidFormat, Some KInvalidBurst,
        Some KInvalidInterval, Some KNonPositiveInterval]"
    by (simp add: rate_eval dur_eval)
  then have n: "fst (RateFlag_Set ?r ''100'') \<noteq> None" "fst (RateFlag_Set ?r ''/5s'') \<noteq> None"
    "fst (RateFlag_Set ?r ''10/'') \<noteq> None" "fst (RateFlag_Set ?r ''x/5s'') \<noteq> None"
    "fst (RateFlag_Set ?r ''10/xs'') \<noteq> None" "fst (RateFlag_Set ?r ''10/0s'') \<noteq> None"
    by auto
  from n [THEN rate_failure_leaves_target] e show ?thesis
    by (simp add: numeral_eq_Suc)
qed

text \<open>
  Claim C6, as the specification states it: the parser accepts the bare shorthand
  \<^verbatim>\<open>/s\<close>, with the burst left out. It does not: the text before the separator is
  empty, and \<^verbatim>\<open>Set\<close> returns the error of an invalid format.
\<close>

theorem rate_bare_shorthand_rejected:
  "RateFlag_Set rate0 ''/s'' = (Some (InvalidFormat ''/s''), rate0)"
  by (simp add: rate_eval rate0_def)

text \<open>
  Claim C6, amended: the parser rejects \<^verbatim>\<open>/s\<close>, the burst being empty, with the error
  of an invalid format. With a burst the shorthand is lossy: \<^verbatim>\<open>1/s\<close> parses and is
  formatted as \<^verbatim>\<open>1/1s\<close>. The format is the burst in decimal, a slash, and the
  interval as \<^verbatim>\<open>Duration.String\<close> prints it, so what \<^verbatim>\<open>5/2s\<close> parses to is formatted
  as \<^verbatim>\<open>5/2s\<close>.
\<close>

theorem rate_format_after_parse:
  "fst (RateFlag_Set f ''/s'') = Some (InvalidFormat ''/s'')
   \<and> fst (RateFlag_Set f ''1/s'') = None
   \<and> RateFlag_String (snd (RateFlag_Set f ''1/s'')) = ''1/1s''
   \<and> fst (RateFlag_Set f ''5/2s'') = None
   \<and> RateFlag_String (snd (RateFlag_Set f ''5/2s'')) = ''5/2s''
   \<and> RateFlag_String f = Itoa (Burst f) @ ''/'' @ Duration_String (Interval f)"
proof -
  have a: "RateFlag_Set f ''/s'' = (Some (InvalidFormat ''/s''), f)"
    by (simp add: rate_eval)
  have b: "RateFlag_Set f ''1/s'' = (None, f\<lparr>Burst := 1, Interval := 1000000000\<rparr>)"
    by (simp add: rate_eval dur_eval)
  have c: "RateFlag_Set f ''5/2s'' = (None, f\<lparr>Burst := 5, Interval := 2000000000\<rparr>)"
    by (simp add: rate_eval dur_eval)
  have d: "Duration_String 1000000000 = ''1s''" "Duration_String 2000000000 = ''2s''"
    by (simp_all add: string_eval)
  have e: "Itoa 1 = ''1''" "Itoa 5 = ''5''"
    by (simp_all add: string_eval)
  show ?thesis
    by (simp add: a b c d e RateFlag_String_def)
qed

theorem rate_format_after_parse_witness:
  "RateFlag_String (snd (RateFlag_Set rate0 ''5/2s'')) = ''5/2s''
   \<and> RateFlag_String (snd (RateFlag_Set rate0 ''1/s'')) = ''1/1s''"
  using rate_format_after_parse [of rate0] by simp

text \<open>
  Claim C7, as the specification states it: every rate that a successful parse produces
  has a non-negative burst. It fails for \<^verbatim>\<open>-5/1s\<close>: \<^verbatim>\<open>strconv.Atoi\<close> reads a sign, and
  \<^verbatim>\<open>Set\<close> stores the burst \<open>-5\<close>.
\<close>

theorem rate_negative_burst_accepted:
  "RateFlag_Set rate0 ''-5/1s'' = (None, \<lparr>Burst = - 5, Interval = 1000000000\<rparr>)"
  by (simp add: rate_eval dur_eval rate0_def)

text \<open>
  Claim C7, amended: every rate that a successful parse produces has a strictly positive
  interval, and its burst is the integer that \<^verbatim>\<open>strconv.Atoi\<close> reads from the text
  before the separator, which may be negative.
\<close>

theorem rate_success_invariant:
  "RateFlag_Set f s = (None, f') \<Longrightarrow>
     0 < Interval f' \<and> Atoi (fst (Cut s CHR ''/'')) = Inr (Burst f')"
  by (auto simp: RateFlag_Set_def Let_def split: prod.splits sum.splits if_splits)

theorem rate_success_invariant_witness:
  "RateFlag_Set rate0 ''200/5s'' = (None, \<lparr>Burst = 200, Interval = 5000000000\<rparr>)
   \<and> 0 < Interval \<lparr>Burst = 200, Interval = 5000000000\<rparr>
   \<and> Atoi ''200'' = Inr (Burst \<lparr>Burst = 200, Interval = 5000000000\<rparr>)"
proof -
  have h: "RateFlag_Set rate0 ''200/5s'' = (None, \<lparr>Burst = 200, Interval = 5000000000\<rparr>)"
    by (simp add: rate_eval dur_eval rate0_def)
  have c: "fst (Cut ''200/5s'' CHR ''/'') = ''200''" by (simp add: Cut_def)
  from rate_success_invariant [OF h] h c show ?thesis by simp
qed

section \<open>The header flag: claims\<close>

lemma header_Func_ok:
  "Cut s CHR ''='' = (k, v, True) \<Longrightarrow>
     header_Func cfg s = (None, cfg\<lparr>Headers := Some ((headerEntries cfg)(k \<mapsto> v))\<rparr>)"
  by (auto simp: header_Func_def headerEntries_def Let_def split: option.splits)

text \<open>
  Claim C8: a header flag whose value has an equals sign sets one entry of the header
  map, the key before the separator to the value after it, and leaves every other entry
  as it was; so \<^verbatim>\<open>X-Key=value1\<close> and then \<^verbatim>\<open>X-Key=value2\<close> leave the one entry
  \<^verbatim>\<open>X-Key\<close> with \<^verbatim>\<open>value2\<close>. A value with no equals sign fails with the error of an
  invalid header, and the configuration is unchanged.
\<close>

theorem header_insert_or_overwrite:
  "(CHR ''='' \<in> set s \<longrightarrow>
      header_Func cfg s
        = (None, cfg\<lparr>Headers := Some ((headerEntries cfg)
                     (fst (Cut s CHR ''='') \<mapsto> fst (snd (Cut s CHR ''=''))))\<rparr>))
   \<and> (CHR ''='' \<notin> set s \<longrightarrow> header_Func cfg s = (Some (InvalidHeaderFormat s), cfg))
   \<and> headerEntries (snd (header_Func (snd (header_Func cfg ''X-Key=value1'')) ''X-Key=value2''))
        = (headerEntries cfg)(''X-Key'' \<mapsto> ''value2'')"
proof (intro conjI impI)
  assume "CHR ''='' \<in> set s"
  then have "Cut s CHR ''='' = (fst (Cut s CHR ''=''), fst (snd (Cut s CHR ''='')), True)"
    by (simp add: Cut_def)
  from header_Func_ok [OF this]
  show "header_Func cfg s
        = (None, cfg\<lparr>Headers := Some ((headerEntries cfg)
                     (fst (Cut s CHR ''='') \<mapsto> fst (snd (Cut s CHR ''=''))))\<rparr>)" .
next
  assume "CHR ''='' \<notin> set s"
  then show "header_Func cfg s = (Some (InvalidHeaderFormat s), cfg)"
    by (simp add: header_Func_def Cut_def)
next
  have c1: "Cut ''X-Key=value1'' CHR ''='' = (''X-Key'', ''value1'', True)"
    and c2: "Cut ''X-Key=value2'' CHR ''='' = (''X-Key'', ''value2'', True)"
    by (simp_all add: Cut_def)
  show "headerEntries (snd (header_Func (snd (header_Func cfg ''X-Key=value1'')) ''X-Key=value2''))
        = (headerEntries cfg)(''X-Key'' \<mapsto> ''value2'')"
    by (simp add: header_Func_ok [OF c1] header_Func_ok [OF c2] headerEntries_def)
qed

theorem header_insert_or_overwrite_witness:
  "header_Func (Config_zero :: string Config) ''noequalsign''
     = (Some (InvalidHeaderFormat ''noequalsign''), Config_zero)
   \<and> dom (headerEntries (snd (header_Func (snd (header_Func (Config_zero :: string Config)
             ''X-Key=value1'')) ''X-Key=value2''))) = {''X-Key''}
   \<and> headerEntries (snd (header_Func (snd (header_Func (Config_zero :: string Config)
             ''X-Key=value1'')) ''X-Key=value2'')) ''X-Key'' = Some ''value2''"
proof -
  have n: "CHR ''='' \<notin> set ''noequalsign''" by simp
  have z: "headerEntries (Config_zero :: string Config) = Map.empty"
    by (simp add: headerEntries_def Config_zero_def)
  from header_insert_or_overwrite [of "''noequalsign''" "Config_zero :: string Config"] n z
  show ?thesis by simp
qed

text \<open>
  Claim C10: the header flag splits its value at the first equals sign only. For a key
  \<open>k\<close> without an equals sign and any value \<open>v\<close>, which may hold equals signs itself, the
  text \<open>k=v\<close> sets the entry \<open>k\<close> to \<open>v\<close>, both as they stand, with nothing trimmed.
\<close>

theorem header_split_at_first_equals:
  "CHR ''='' \<notin> set k \<Longrightarrow>
     header_Func cfg (k @ ''='' @ v)
       = (None, cfg\<lparr>Headers := Some ((headerEntries cfg)(k \<mapsto> v))\<rparr>)"
proof -
  assume "CHR ''='' \<notin> set k"
  then have "Cut (k @ CHR ''='' # v) CHR ''='' = (k, v, True)"
    by (rule Cut_found)
  from header_Func_ok [OF this] show ?thesis by simp
qed

theorem header_split_at_first_equals_witness:
  "header_Func (Config_zero :: string Config) ''k= a=b ''
     = (None, Config_zero\<lparr>Headers := Some [''k'' \<mapsto> '' a=b '']\<rparr>)"
proof -
  have n: "CHR ''='' \<notin> set ''k''" by simp
  have z: "headerEntries (Config_zero :: string Config) = Map.empty"
    by (simp add: headerEntries_def Config_zero_def)
  from header_split_at_first_equals [OF n, of "Config_zero :: string Config" "'' a=b ''"] z
  show ?thesis by simp
qed

section \<open>Flags, environment and defaults: claims\<close>

lemmas env_eval = resolve_def init_def setFlagsFromEnv_def flagEnvMap_def Config_zero_def
  getEnvOrDefault_def url_text_def given_def

text \<open>
  Claim C2, as the specification states it: for the four fields with an environment
  variable, a value given on the command line wins over the environment. It fails for
  an empty \<^verbatim>\<open>-server\<close> value: the function registered for the flag does nothing when
  its argument is empty, so the URL from the environment stays.
\<close>

theorem resolve_empty_server_flag_keeps_env:
  "map_sum kind_of ServerURL (resolve url_text env_server [(''server'', [])])
     = Inr (url_text ''http://apm.example:8200'')
   \<and> url_text ''http://apm.example:8200'' \<noteq> url_text []"
  by (simp add: env_eval flag_eval env_server_def)

text \<open>
  Claim C2, amended, for a command line that \<^verbatim>\<open>flag.Parse\<close> accepts. The secret
  token and the API key are the last value given on the command line, else the
  environment variable if it is not empty, else the empty default. The TLS flag is the
  boolean denoted by the last value given on the command line; with no such value it
  is the boolean denoted by the environment variable if that is not empty and denotes
  one, and \<^verbatim>\<open>false\<close>, the default, if the variable is empty. The server URL is what
  \<^verbatim>\<open>url.Parse\<close> makes of the last non-empty value given on the command line, an empty
  \<^verbatim>\<open>-server\<close> value being ignored; with no such value it is what \<^verbatim>\<open>url.Parse\<close>
  makes of the environment variable if that is not empty and is accepted, and of
  \<^verbatim>\<open>http://127.0.0.1:8200\<close> if the variable is empty. Nothing is said of a
  non-empty environment variable that its flag rejects and no flag overrides.
\<close>

theorem resolve_precedence:
  assumes "resolve url_Parse env args = Inr cfg"
  shows "SecretToken cfg =
           (if given ''secret-token'' args \<noteq> [] then last (given ''secret-token'' args)
            else if env ''ELASTIC_APM_SECRET_TOKEN'' \<noteq> []
              then env ''ELASTIC_APM_SECRET_TOKEN''
            else [])
       \<and> APIKey cfg =
           (if given ''api-key'' args \<noteq> [] then last (given ''api-key'' args)
            else if env ''ELASTIC_APM_API_KEY'' \<noteq> [] then env ''ELASTIC_APM_API_KEY''
            else [])
       \<and> (given ''secure'' args \<noteq> [] \<longrightarrow>
            ParseBool (last (given ''secure'' args)) = Inr (Secure cfg))
       \<and> (given ''secure'' args = [] \<longrightarrow>
            (if env ''ELASTIC_APM_VERIFY_SERVER_CERT'' \<noteq> []
             then \<forall>b. ParseBool (env ''ELASTIC_APM_VERIFY_SERVER_CERT'') = Inr b
                      \<longrightarrow> Secure cfg = b
             else \<not> Secure cfg))
       \<and> (filter (\<lambda>v. v \<noteq> []) (given ''server'' args) \<noteq> [] \<longrightarrow>
            url_Parse (last (filter (\<lambda>v. v \<noteq> []) (given ''server'' args))) = ServerURL cfg
            \<and> ServerURL cfg \<noteq> None)
       \<and> (filter (\<lambda>v. v \<noteq> []) (given ''server'' args) = [] \<longrightarrow>
            (if env ''ELASTIC_APM_SERVER_URL'' \<noteq> []
             then \<forall>u. url_Parse (env ''ELASTIC_APM_SERVER_URL'') = Some u
                      \<longrightarrow> ServerURL cfg = Some u
             else ServerURL cfg = url_Parse ''http://127.0.0.1:8200''))"
proof -
  from assms have p: "flag_Parse url_Parse args (init url_Parse env) = Inr cfg"
    by (simp add: resolve_def)
  have ta: "if filter (\<lambda>v. True) (given ''secret-token'' args) = []
            then SecretToken cfg = SecretToken (init url_Parse env)
            else SecretToken cfg = last (filter (\<lambda>v. True) (given ''secret-token'' args))"
    by (rule flag_Parse_track [where Q = "\<lambda>v x. x = v", OF _ _ p])
      (simp_all add: flag_Set_SecretToken flag_Set_secret_token_ok)
  have tb: "if filter (\<lambda>v. True) (given ''api-key'' args) = []
            then APIKey cfg = APIKey (init url_Parse env)
            else APIKey cfg = last (filter (\<lambda>v. True) (given ''api-key'' args))"
    by (rule flag_Parse_track [where Q = "\<lambda>v x. x = v", OF _ _ p])
      (simp_all add: flag_Set_APIKey flag_Set_api_key_ok)
  have tc: "if filter (\<lambda>v. True) (given ''secure'' args) = []
            then Secure cfg = Secure (init url_Parse env)
            else ParseBool (last (filter (\<lambda>v. True) (given ''secure'' args))) = Inr (Secure cfg)"
    by (rule flag_Parse_track [where Q = "\<lambda>v x. ParseBool v = Inr x", OF _ _ p])
      (simp_all add: flag_Set_Secure flag_Set_secure_ok)
  have td: "if filter (\<lambda>v. v \<noteq> []) (given ''server'' args) = []
            then ServerURL cfg = ServerURL (init url_Parse env)
            else url_Parse (last (filter (\<lambda>v. v \<noteq> []) (given ''server'' args))) = ServerURL cfg
                 \<and> ServerURL cfg \<noteq> None"
    by (rule flag_Parse_track [where Q = "\<lambda>v x. url_Parse v = x \<and> x \<noteq> None", OF _ _ p])
      (auto simp: flag_Set_ServerURL dest: flag_Set_server_ok)
  have a: "SecretToken cfg =
           (if given ''secret-token'' args \<noteq> [] then last (given ''secret-token'' args)
            else if env ''ELASTIC_APM_SECRET_TOKEN'' \<noteq> []
              then env ''ELASTIC_APM_SECRET_TOKEN''
            else [])"
    using ta by (simp add: init_SecretToken getEnvOrDefault_def)
  have b: "APIKey cfg =
           (if given ''api-key'' args \<noteq> [] then last (given ''api-key'' args)
            else if env ''ELASTIC_APM_API_KEY'' \<noteq> [] then env ''ELASTIC_APM_API_KEY''
            else [])"
    using tb by (simp add: init_APIKey getEnvOrDefault_def)
  have c1: "given ''secure'' args \<noteq> [] \<longrightarrow>
            ParseBool (last (given ''secure'' args)) = Inr (Secure cfg)"
    using tc by (auto split: if_splits)
  have c2: "given ''secure'' args = [] \<longrightarrow>
            (if env ''ELASTIC_APM_VERIFY_SERVER_CERT'' \<noteq> []
             then \<forall>b. ParseBool (env ''ELASTIC_APM_VERIFY_SERVER_CERT'') = Inr b
                      \<longrightarrow> Secure cfg = b
             else \<not> Secure cfg)"
    using tc by (auto simp: init_Secure getEnvOrDefault_def ParseBool_def)
  have d1: "filter (\<lambda>v. v \<noteq> []) (given ''server'' args) \<noteq> [] \<longrightarrow>
            url_Parse (last (filter (\<lambda>v. v \<noteq> []) (given ''server'' args))) = ServerURL cfg
            \<and> ServerURL cfg \<noteq> None"
    using td by (auto split: if_splits)
  have d2: "filter (\<lambda>v. v \<noteq> []) (given ''server'' args) = [] \<longrightarrow>
            (if env ''ELASTIC_APM_SERVER_URL'' \<noteq> []
             then \<forall>u. url_Parse (env ''ELASTIC_APM_SERVER_URL'') = Some u
                      \<longrightarrow> ServerURL cfg = Some u
             else ServerURL cfg = url_Parse ''http://127.0.0.1:8200'')"
    using td by (auto simp: init_ServerURL getEnvOrDefault_def)
  from a b c1 c2 d1 d2 show ?thesis by blast
qed

theorem resolve_precedence_witness:
  "(\<exists>cfg. resolve url_text env_all
            [(''server'', ''http://cli.example:8200''), (''secret-token'', ''tok''),
             (''api-key'', ''key2''), (''secure'', ''false'')] = Inr cfg
        \<and> ServerURL cfg = Some ''http://cli.example:8200'' \<and> \<not> Secure cfg
        \<and> SecretToken cfg = ''tok'' \<and> APIKey cfg = ''key2'')
   \<and> (\<exists>cfg. resolve url_text env_all [] = Inr cfg
        \<and> ServerURL cfg = Some ''http://apm.example:8200'' \<and> Secure cfg
        \<and> SecretToken cfg = ''s3cret'' \<and> APIKey cfg = ''key1'')
   \<and> (\<exists>cfg. resolve url_text env_unset [] = Inr cfg
        \<and> ServerURL cfg = Some ''http://127.0.0.1:8200'' \<and> \<not> Secure cfg
        \<and> SecretToken cfg = [] \<and> APIKey cfg = [])"
proof -
  obtain c1 where h1: "resolve url_text env_all
      [(''server'', ''http://cli.example:8200''), (''secret-token'', ''tok''),
       (''api-key'', ''key2''), (''secure'', ''false'')] = Inr c1"
    by (simp add: env_eval flag_eval env_all_def)
  obtain c2 where h2: "resolve url_text env_all [] = Inr c2"
    by (simp add: resolve_def)
  obtain c3 where h3: "resolve url_text env_unset [] = Inr c3"
    by (simp add: resolve_def)
  have e1: "ServerURL c1 = Some ''http://cli.example:8200'' \<and> \<not> Secure c1
              \<and> SecretToken c1 = ''tok'' \<and> APIKey c1 = ''key2''"
    using resolve_precedence [OF h1]
    by (simp add: given_def url_text_def ParseBool_def)
  have e2: "ServerURL c2 = Some ''http://apm.example:8200'' \<and> Secure c2
              \<and> SecretToken c2 = ''s3cret'' \<and> APIKey c2 = ''key1''"
    using resolve_precedence [OF h2]
    by (auto simp: given_def env_all_def url_text_def ParseBool_def)
  have e3: "ServerURL c3 = Some ''http://127.0.0.1:8200'' \<and> \<not> Secure c3
              \<and> SecretToken c3 = [] \<and> APIKey c3 = []"
    using resolve_precedence [OF h3]
    by (simp add: given_def env_unset_def url_text_def)
  from h1 h2 h3 e1 e2 e3 show ?thesis by blast
qed

text \<open>
  Claim C9 says that no value that fails a flag's validation is ignored, whether it
  comes from the command line or from the environment. \<^verbatim>\<open>setFlagsFromEnv\<close> drops the
  error of \<^verbatim>\<open>flag.Set\<close>: with \<^verbatim>\<open>ELASTIC_APM_VERIFY_SERVER_CERT=yes\<close> the flag's
  \<^verbatim>\<open>Set\<close> fails, and \<^verbatim>\<open>init\<close> ends with the configuration it ends with when
  the variable is unset, while the same value on the command line ends the process.
\<close>

theorem env_error_discarded:
  "droppedErrors url_text env_verify_yes = [ErrParse]
   \<and> init url_text env_verify_yes = init url_text env_unset
   \<and> resolve url_text env_unset [(''secure'', ''yes'')] = Inl ErrParse"
  by (simp add: droppedErrors_def env_eval flag_eval
      env_verify_yes_def env_unset_def)

end
